theory Spec2Isabelle
  imports Main
begin

section \<open>Data model of sendmail.py\<close>

text \<open>
  An argument that the source accepts as \<^verbatim>\<open>None\<close>, as a single \<^verbatim>\<open>str\<close> or as a
  list of \<^verbatim>\<open>str\<close> (the parameters \<^verbatim>\<open>to\<close> and \<^verbatim>\<open>bcc\<close> of \<^verbatim>\<open>Mail.__init__\<close>).
\<close>

datatype py_arg = PyNone | PyStr string | PyList "string list"

text \<open>
  \<^verbatim>\<open>class MailSender\<close>: the constructor stores its five arguments unchanged.
  The field \<^verbatim>\<open>from_\<close> is named \<open>from_addr\<close> here.
\<close>

record MailSender =
  user :: string
  password :: string
  server :: string
  from_addr :: "string option"
  reply_to :: "string option"

text \<open>
  The MIME document \<^verbatim>\<open>self.msg\<close>. Its parts are the text part and one part per
  attachment (payload and \<^verbatim>\<open>Content-Disposition\<close> header; the base64 encoding is
  the library's). \<open>headers\<close> lists the assignments \<^verbatim>\<open>self.msg[name] = value\<close> in
  the order the constructor makes them; a value may be \<^verbatim>\<open>None\<close>.
\<close>

datatype mime_part =
    MIMEText string
  | Attachment string string

record mime_msg =
  subtype :: string
  parts :: "mime_part list"
  headers :: "(string \<times> string option) list"

record Mail =
  sender :: MailSender
  msg :: mime_msg
  to :: "string list"
  bcc :: "string list"

datatype error = ValueError string

section \<open>Mail.__init__\<close>

text \<open>Python truthiness of an optional string: neither \<^verbatim>\<open>None\<close> nor empty.\<close>

fun truthy :: "string option \<Rightarrow> bool" where
  "truthy None = False"
| "truthy (Some s) = (s \<noteq> [])"

text \<open>\<^verbatim>\<open>sep.join(xs)\<close>\<close>

fun join :: "string \<Rightarrow> string list \<Rightarrow> string" where
  "join sep [] = []"
| "join sep [x] = x"
| "join sep (x # y # ys) = x @ sep @ join sep (y # ys)"

text \<open>
  The normalisation of \<^verbatim>\<open>to\<close> and \<^verbatim>\<open>bcc\<close>: a \<^verbatim>\<open>str\<close> becomes a one-element
  list, a list is kept as it is. \<^verbatim>\<open>None\<close> becomes the empty list for \<^verbatim>\<open>bcc\<close>; for
  \<^verbatim>\<open>to\<close> the constructor has raised before it gets here.
\<close>

fun as_list :: "py_arg \<Rightarrow> string list" where
  "as_list PyNone = []"
| "as_list (PyStr s) = [s]"
| "as_list (PyList xs) = xs"

text \<open>\<^verbatim>\<open>'attachment; filename="{}"'.format(name)\<close>\<close>

definition content_disposition :: "string \<Rightarrow> string" where
  "content_disposition name = ''attachment; filename=\"'' @ name @ ''\"''"

text \<open>
  One part per item of the attachments dictionary, in its iteration order.
  \<^verbatim>\<open>None\<close> is replaced by the empty dictionary.
\<close>

fun attachment_parts :: "(string \<times> string) list option \<Rightarrow> mime_part list" where
  "attachment_parts None = []"
| "attachment_parts (Some items) =
     map (\<lambda>(name, filedata). Attachment (content_disposition name) filedata) items"

text \<open>\<^verbatim>\<open>self.sender.from_ or self.sender.user\<close>\<close>

definition from_header :: "MailSender \<Rightarrow> string" where
  "from_header s =
     (case from_addr s of
        None \<Rightarrow> user s
      | Some f \<Rightarrow> if f \<noteq> [] then f else user s)"

text \<open>
  \<^verbatim>\<open>reply_to if reply_to else self.sender.reply_to if self.sender.reply_to
  else self.sender.from_\<close>
\<close>

definition reply_to_header :: "MailSender \<Rightarrow> string option \<Rightarrow> string option" where
  "reply_to_header s r =
     (if truthy r then r
      else if truthy (reply_to s) then reply_to s
      else from_addr s)"

text \<open>
  \<^verbatim>\<open>",".join(self.to) if custom_to_header is None else custom_to_header\<close>
\<close>

definition to_header :: "string list \<Rightarrow> string option \<Rightarrow> string" where
  "to_header tos custom_to_header =
     (case custom_to_header of None \<Rightarrow> join '','' tos | Some h \<Rightarrow> h)"

text \<open>
  The constructor. \<open>now\<close> is the formatted local time that the constructor reads
  from the clock for the \<^verbatim>\<open>Date\<close> header. The only \<^verbatim>\<open>raise\<close> is for
  \<^verbatim>\<open>to is None\<close>.
\<close>

definition Mail_init ::
  "MailSender \<Rightarrow> py_arg \<Rightarrow> string \<Rightarrow> string \<Rightarrow> (string \<times> string) list option \<Rightarrow>
   py_arg \<Rightarrow> string option \<Rightarrow> string option \<Rightarrow> string \<Rightarrow> string \<Rightarrow> error + Mail" where
  "Mail_init sndr to_arg subject text attachments bcc_arg reply_to_arg custom_to_header
     root_msg_mime_subtype now =
   (if to_arg = PyNone then Inl (ValueError ''Mail: No recipient given'')
    else
      let tos = as_list to_arg;
          bccs = as_list bcc_arg
      in Inr \<lparr> sender = sndr,
               msg = \<lparr> subtype = root_msg_mime_subtype,
                       parts = MIMEText text # attachment_parts attachments,
                       headers =
                         [(''Subject'', Some subject),
                          (''To'', Some (to_header tos custom_to_header)),
                          (''From'', Some (from_header sndr)),
                          (''Reply-To'', reply_to_header sndr reply_to_arg),
                          (''Date'', Some now)] \<rparr>,
               to = tos,
               bcc = bccs \<rparr>)"

text \<open>
  \<^verbatim>\<open>msg[name]\<close>: the value of the first header of that name, \<^verbatim>\<open>None\<close> when
  there is none.
\<close>

definition get_header :: "mime_msg \<Rightarrow> string \<Rightarrow> string option" where
  "get_header m name = (case map_of (headers m) name of None \<Rightarrow> None | Some v \<Rightarrow> v)"

section \<open>Mail.send\<close>

text \<open>
  What an attempt can raise, as the \<^verbatim>\<open>except\<close> clauses of \<^verbatim>\<open>send\<close> tell them apart:
  \<^verbatim>\<open>smtplib.SMTPAuthenticationError\<close> (first clause), any other \<^verbatim>\<open>OSError\<close> (second
  clause, carrying \<^verbatim>\<open>str(err)\<close>), and an exception that is no \<^verbatim>\<open>OSError\<close>, which
  no clause catches.
\<close>

datatype exn = SMTPAuthenticationError | OSError string | OtherException string

text \<open>
  Where the \<^verbatim>\<open>try\<close> body can raise, in order: its six calls, and before the last
  of them the evaluation of its argument \<^verbatim>\<open>self.msg.as_string()\<close>.
\<close>

datatype step =
  AtSMTP | AtEhlo1 | AtStarttls | AtEhlo2 | AtLogin | AtAsString | AtSendmail

text \<open>
  The outcome of one run of the \<^verbatim>\<open>try\<close> body: every call returns, or the
  given step raises. The server and the network decide it; the model takes it
  from an environment \<open>env\<close> that maps the value of \<^verbatim>\<open>tries\<close> to an outcome.
\<close>

datatype outcome = Completed | Raises step exn

text \<open>
  What \<^verbatim>\<open>send\<close> does to the outside, in order: the calls on \<^verbatim>\<open>smtplib\<close>,
  \<^verbatim>\<open>print\<close> and \<^verbatim>\<open>time.sleep\<close>. \<open>Close k\<close> is \<^verbatim>\<open>close()\<close> on the object that
  the attempt with \<^verbatim>\<open>tries = k\<close> created.
\<close>

datatype event =
    SMTP string
  | Ehlo
  | Starttls
  | Login string string
  | Sendmail string "string list" mime_msg
  | Close nat
  | Print string
  | Sleep nat

datatype control = Succeeded | Failed | Uncaught exn

text \<open>The decimal digit for a number below ten.\<close>

definition digit :: "nat \<Rightarrow> char" where
  "digit n = ''0123456789'' ! (n mod 10)"

text \<open>\<^verbatim>\<open>str(n)\<close> for an integer \<open>n \<ge> 0\<close>: its decimal digits.\<close>

fun str_nat :: "nat \<Rightarrow> string" where
  "str_nat n = (if n < 10 then [digit n] else str_nat (n div 10) @ [digit (n mod 10)])"

text \<open>
  \<^verbatim>\<open>["once", "twice", "{} times"][min(tries, 2)].format(tries + 1)\<close>
\<close>

definition ordinal :: "nat \<Rightarrow> string" where
  "ordinal tries =
     (case min tries 2 of
        0 \<Rightarrow> ''once''
      | Suc 0 \<Rightarrow> ''twice''
      | _ \<Rightarrow> str_nat (tries + 1) @ '' times'')"

text \<open>
  \<^verbatim>\<open>"Failed sending to <{}> {}: {} (waiting {}s)".format(self.to, ordinal, err,
  tries ** 2)\<close>. \<open>str_list\<close> is Python's \<^verbatim>\<open>str\<close> of a list of strings.
\<close>

definition failed_msg :: "(string list \<Rightarrow> string) \<Rightarrow> Mail \<Rightarrow> nat \<Rightarrow> string \<Rightarrow> string" where
  "failed_msg str_list m tries err =
     ''Failed sending to <'' @ str_list (to m) @ ''> '' @ ordinal tries @ '': '' @ err @
     '' (waiting '' @ str_nat (tries ^ 2) @ ''s)''"

text \<open>The calls of the \<^verbatim>\<open>try\<close> body with their arguments.\<close>

definition body_calls :: "Mail \<Rightarrow> string list \<Rightarrow> event list" where
  "body_calls m to_all =
     [SMTP (server (sender m)),
      Ehlo,
      Starttls,
      Ehlo,
      Login (user (sender m)) (password (sender m)),
      Sendmail (user (sender m)) to_all (msg m)]"

fun calls_made :: "outcome \<Rightarrow> nat" where
  "calls_made Completed = 6"
| "calls_made (Raises AtSMTP e) = 1"
| "calls_made (Raises AtEhlo1 e) = 2"
| "calls_made (Raises AtStarttls e) = 3"
| "calls_made (Raises AtEhlo2 e) = 4"
| "calls_made (Raises AtLogin e) = 5"
| "calls_made (Raises AtAsString e) = 5"
| "calls_made (Raises AtSendmail e) = 6"

text \<open>
  The calls that the body makes: all of them, or those up to the one that raises. When
  \<^verbatim>\<open>as_string()\<close> raises, \<^verbatim>\<open>sendmail\<close> is not called.
\<close>

definition body_events :: "Mail \<Rightarrow> string list \<Rightarrow> outcome \<Rightarrow> event list" where
  "body_events m to_all oc = take (calls_made oc) (body_calls m to_all)"

text \<open>
  The \<^verbatim>\<open>except\<close> and \<^verbatim>\<open>else\<close> clauses: what is printed and slept, and whether
  the attempt succeeded, failed (\<^verbatim>\<open>tries += 1\<close>) or raised what no clause catches.
\<close>

fun handler :: "(string list \<Rightarrow> string) \<Rightarrow> Mail \<Rightarrow> outcome \<Rightarrow> nat \<Rightarrow> event list \<times> control" where
  "handler str_list m (Raises s SMTPAuthenticationError) tries =
     ([Print ''Failed sending: Authentication Error'', Sleep tries], Failed)"
| "handler str_list m (Raises s (OSError err)) tries =
     ([Print (failed_msg str_list m tries err), Sleep (tries ^ 2)], Failed)"
| "handler str_list m (Raises s (OtherException e)) tries = ([], Uncaught (OtherException e))"
| "handler str_list m Completed tries = ([], Succeeded)"

text \<open>
  The variable \<^verbatim>\<open>smtpserver\<close> after the body: bound to a new object unless the
  call \<^verbatim>\<open>smtplib.SMTP(...)\<close> itself raised, which leaves it as it was (unbound in the
  first attempt, the object of an earlier attempt later).
\<close>

fun bound_after :: "outcome \<Rightarrow> nat \<Rightarrow> nat option \<Rightarrow> nat option" where
  "bound_after (Raises AtSMTP e) tries smtpserver = smtpserver"
| "bound_after oc tries smtpserver = Some tries"

text \<open>
  The \<^verbatim>\<open>finally\<close> clause: \<^verbatim>\<open>smtpserver.close()\<close>, with the \<^verbatim>\<open>UnboundLocalError\<close>
  of an unbound variable passed over.
\<close>

fun finally_events :: "nat option \<Rightarrow> event list" where
  "finally_events None = []"
| "finally_events (Some k) = [Close k]"

text \<open>
  Everything one iteration of the loop does to the outside: the calls of the body, then
  the \<^verbatim>\<open>except\<close> clause that applies, then the \<^verbatim>\<open>finally\<close> clause.
\<close>

definition attempt_events ::
  "(string list \<Rightarrow> string) \<Rightarrow> Mail \<Rightarrow> string list \<Rightarrow> outcome \<Rightarrow> nat \<Rightarrow> nat option \<Rightarrow> event list" where
  "attempt_events str_list m to_all oc tries smtpserver =
     body_events m to_all oc @ fst (handler str_list m oc tries) @
     finally_events (bound_after oc tries smtpserver)"

text \<open>
  The \<^verbatim>\<open>while not success and tries < retries\<close> loop. It returns what \<^verbatim>\<open>send\<close>
  returns from here on (\<open>Inl\<close>: the exception that leaves \<^verbatim>\<open>send\<close>) and the events
  from here on.
\<close>

function send_loop ::
  "(nat \<Rightarrow> outcome) \<Rightarrow> (string list \<Rightarrow> string) \<Rightarrow> Mail \<Rightarrow> string list \<Rightarrow> int \<Rightarrow>
   bool \<Rightarrow> nat \<Rightarrow> nat option \<Rightarrow> (exn + bool) \<times> event list" where
  "send_loop env str_list m to_all retries success tries smtpserver =
     (if \<not> success \<and> int tries < retries then
        (let oc = env tries;
             evs = attempt_events str_list m to_all oc tries smtpserver;
             smtpserver' = bound_after oc tries smtpserver
         in case snd (handler str_list m oc tries) of
              Uncaught e \<Rightarrow> (Inl e, evs)
            | Succeeded \<Rightarrow>
                (case send_loop env str_list m to_all retries True tries smtpserver' of
                   (r, tr) \<Rightarrow> (r, evs @ tr))
            | Failed \<Rightarrow>
                (case send_loop env str_list m to_all retries success (tries + 1) smtpserver' of
                   (r, tr) \<Rightarrow> (r, evs @ tr)))
      else (Inr success, []))"
  by pat_completeness auto
termination
  by (relation "measure (\<lambda>(env, str_list, m, to_all, retries, success, tries, smtpserver).
        if success then 0 else Suc (nat (retries - int tries)))") auto

text \<open>
  \<^verbatim>\<open>Mail.send(retries)\<close>: the result (\<open>Inr\<close> the returned boolean, \<open>Inl\<close> an
  exception that leaves the method) and the events in order.
\<close>

definition send ::
  "(nat \<Rightarrow> outcome) \<Rightarrow> (string list \<Rightarrow> string) \<Rightarrow> Mail \<Rightarrow> int \<Rightarrow> (exn + bool) \<times> event list" where
  "send env str_list m retries =
     (let tries = 0;
          to_all = to m @ bcc m
      in if to_all \<noteq> [] then send_loop env str_list m to_all retries False tries None
         else (Inr True, [Print ''No mail adresses given, no mails sent.'']))"

text \<open>The default of the parameter \<^verbatim>\<open>retries\<close>.\<close>

definition default_retries :: int where
  "default_retries = 3"

section \<open>Observations on a run\<close>

text \<open>
  The number of attempts in a trace: every iteration of the loop begins with the call
  \<^verbatim>\<open>smtplib.SMTP(...)\<close> and makes it once.
\<close>

fun is_SMTP :: "event \<Rightarrow> bool" where
  "is_SMTP (SMTP h) = True"
| "is_SMTP ev = False"

definition attempts :: "event list \<Rightarrow> nat" where
  "attempts tr = length (filter is_SMTP tr)"

text \<open>The arguments of the calls of \<^verbatim>\<open>time.sleep\<close> in a trace, in order.\<close>

fun sleeps :: "event list \<Rightarrow> nat list" where
  "sleeps [] = []"
| "sleeps (Sleep n # tr) = n # sleeps tr"
| "sleeps (ev # tr) = sleeps tr"

text \<open>The number of calls of \<^verbatim>\<open>print\<close> in a trace.\<close>

fun is_Print :: "event \<Rightarrow> bool" where
  "is_Print (Print s) = True"
| "is_Print ev = False"

definition prints :: "event list \<Rightarrow> nat" where
  "prints tr = length (filter is_Print tr)"

text \<open>
  An outcome that \<^verbatim>\<open>send\<close> retries after: an authentication failure or another
  \<^verbatim>\<open>OSError\<close>.
\<close>

fun transient :: "outcome \<Rightarrow> bool" where
  "transient (Raises s SMTPAuthenticationError) = True"
| "transient (Raises s (OSError err)) = True"
| "transient oc = False"

section \<open>Example data\<close>

text \<open>A sender as in the module's docstring, and one that has a reply address too.\<close>

definition example_sender :: MailSender where
  "example_sender =
     \<lparr> user = ''me@example.com'', password = ''s3cr3t'', server = ''smtp.example.com'',
       from_addr = Some ''Me <me@example.com>'', reply_to = None \<rparr>"

definition replying_sender :: MailSender where
  "replying_sender = example_sender \<lparr> reply_to := Some ''a'' \<rparr>"

text \<open>
  \<^verbatim>\<open>Mail(example_sender, ["x@example.com", "y@example.com"], "subject", "hello",
  bcc="z@example.com", custom_to_header="Team <team@example.com>")\<close>,
  constructed at the time \<^verbatim>\<open>now\<close>.
\<close>

definition example_mail :: "error + Mail" where
  "example_mail =
     Mail_init example_sender (PyList [''x@example.com'', ''y@example.com'']) ''subject''
       ''hello'' None (PyStr ''z@example.com'') None (Some ''Team <team@example.com>'')
       ''mixed'' ''now''"

text \<open>
  \<^verbatim>\<open>Mail(example_sender, ["x@example.com", "y@example.com"], "subject", "hello")\<close>:
  two recipients and no \<^verbatim>\<open>custom_to_header\<close>.
\<close>

definition plain_mail :: "error + Mail" where
  "plain_mail =
     Mail_init example_sender (PyList [''x@example.com'', ''y@example.com'']) ''subject''
       ''hello'' None PyNone None None ''mixed'' ''now''"

text \<open>\<^verbatim>\<open>Mail(example_sender, [])\<close>, with the defaults for all other parameters.\<close>

definition empty_mail :: "error + Mail" where
  "empty_mail =
     Mail_init example_sender (PyList []) [] [] None PyNone None None ''mixed'' ''now''"

text \<open>
  A rendering of a list of strings that agrees with Python's \<^verbatim>\<open>str\<close> on strings
  without quotes, backslashes and unprintable characters.
\<close>

definition example_str_list :: "string list \<Rightarrow> string" where
  "example_str_list xs =
     ''['' @ join '', '' (map (\<lambda>x. [CHR 0x27] @ x @ [CHR 0x27]) xs) @ '']''"

text \<open>Environments: what the server does in the attempt with \<^verbatim>\<open>tries = i\<close>.\<close>

definition always_ok :: "nat \<Rightarrow> outcome" where
  "always_ok i = Completed"

definition always_auth_failure :: "nat \<Rightarrow> outcome" where
  "always_auth_failure i = Raises AtLogin SMTPAuthenticationError"

definition always_refused :: "nat \<Rightarrow> outcome" where
  "always_refused i = Raises AtSMTP (OSError ''[Errno 111] Connection refused'')"

text \<open>
  An attempt that raises an exception that is no \<^verbatim>\<open>OSError\<close>, here while the message
  is rendered.
\<close>

definition always_uncaught :: "nat \<Rightarrow> outcome" where
  "always_uncaught i = Raises AtAsString (OtherException ''ValueError'')"

definition refused_then_ok :: "nat \<Rightarrow> outcome" where
  "refused_then_ok i = (if i = 0 then Raises AtSMTP (OSError ''timed out'') else Completed)"

section \<open>The loop, one iteration at a time\<close>

declare send_loop.simps [simp del]

lemma send_loop_True:
  "send_loop env sl m ta retries True tries srv = (Inr True, [])"
  by (subst send_loop.simps) simp

lemma send_loop_budget:
  "\<not> int tries < retries \<Longrightarrow>
   send_loop env sl m ta retries success tries srv = (Inr success, [])"
  by (subst send_loop.simps) simp

lemma send_loop_Completed:
  "int tries < retries \<Longrightarrow> env tries = Completed \<Longrightarrow>
   send_loop env sl m ta retries False tries srv =
     (Inr True, attempt_events sl m ta Completed tries srv)"
  by (subst send_loop.simps) (simp add: send_loop_True Let_def)

lemma send_loop_Uncaught:
  "int tries < retries \<Longrightarrow> env tries = Raises s (OtherException x) \<Longrightarrow>
   send_loop env sl m ta retries False tries srv =
     (Inl (OtherException x), attempt_events sl m ta (Raises s (OtherException x)) tries srv)"
  by (subst send_loop.simps) (simp add: Let_def)

lemma send_loop_Failed:
  "int tries < retries \<Longrightarrow> transient (env tries) \<Longrightarrow>
   send_loop env sl m ta retries False tries srv =
     (fst (send_loop env sl m ta retries False (Suc tries) (bound_after (env tries) tries srv)),
      attempt_events sl m ta (env tries) tries srv @
      snd (send_loop env sl m ta retries False (Suc tries) (bound_after (env tries) tries srv)))"
  by (subst send_loop.simps, cases "env tries" rule: transient.cases)
     (simp_all add: case_prod_beta Let_def)

lemma attempts_append: "attempts (xs @ ys) = attempts xs + attempts ys"
  by (simp add: attempts_def)

lemma attempts_body: "attempts (body_events m ta oc) = 1"
  by (cases oc rule: calls_made.cases) (simp_all add: attempts_def body_events_def body_calls_def)

lemma attempts_handler: "attempts (fst (handler sl m oc t)) = 0"
  by (cases oc rule: transient.cases) (simp_all add: attempts_def)

lemma attempts_finally: "attempts (finally_events srv) = 0"
  by (cases srv) (simp_all add: attempts_def)

lemma attempts_attempt: "attempts (attempt_events sl m ta oc t srv) = 1"
  by (simp add: attempt_events_def attempts_append attempts_body attempts_handler attempts_finally)

lemma loop_cases [case_names budget completed failed uncaught]:
  assumes "\<not> int t < r \<Longrightarrow> P"
    and "int t < r \<Longrightarrow> env t = Completed \<Longrightarrow> P"
    and "int t < r \<Longrightarrow> transient (env t) \<Longrightarrow> P"
    and "\<And>s x. int t < r \<Longrightarrow> env t = Raises s (OtherException x) \<Longrightarrow> P"
  shows P
proof (cases "int t < r")
  case False
  then show ?thesis by (rule assms(1))
next
  case True
  show ?thesis
  proof (cases "env t")
    case Completed
    then show ?thesis using True assms(2) by simp
  next
    case (Raises s e)
    show ?thesis
    proof (cases e)
      case SMTPAuthenticationError
      then show ?thesis using Raises True assms(3) by simp
    next
      case (OSError err)
      then show ?thesis using Raises True assms(3) by simp
    next
      case (OtherException x)
      then show ?thesis using Raises True assms(4) by simp
    qed
  qed
qed

lemma loop_induct [case_names budget completed failed uncaught]:
  assumes budget: "\<And>t srv. \<not> int t < r \<Longrightarrow> P t srv"
    and completed: "\<And>t srv. int t < r \<Longrightarrow> env t = Completed \<Longrightarrow> P t srv"
    and failed: "\<And>t srv. int t < r \<Longrightarrow> transient (env t) \<Longrightarrow>
           P (Suc t) (bound_after (env t) t srv) \<Longrightarrow> P t srv"
    and uncaught: "\<And>t srv s x. int t < r \<Longrightarrow> env t = Raises s (OtherException x) \<Longrightarrow> P t srv"
  shows "P t srv"
proof (induction "nat (r - int t)" arbitrary: t srv)
  case 0
  then have "\<not> int t < r" by simp
  then show ?case by (rule budget)
next
  case (Suc n)
  then have lt: "int t < r" and n: "n = nat (r - int (Suc t))" by simp_all
  show ?case
  proof (cases rule: loop_cases [where t=t and r=r and env=env])
    case budget
    then show ?thesis using lt by simp
  next
    case completed
    then show ?thesis by (rule assms(2))
  next
    case failed
    then show ?thesis using Suc.hyps(1) [OF n] by (rule assms(3))
  next
    case (uncaught s x)
    then show ?thesis by (rule assms(4))
  qed
qed

lemma attempts_le:
  "attempts (snd (send_loop env sl m ta r False t srv)) \<le> nat (r - int t)"
  by (induction t srv rule: loop_induct [where r=r and env=env])
     (simp_all add: send_loop_budget send_loop_Completed send_loop_Failed send_loop_Uncaught
        attempts_append attempts_attempt attempts_def [of "[]"])

lemma ex_from_Suc:
  "(\<exists>i. t \<le> i \<and> i < Suc (t + k) \<and> Q i) \<longleftrightarrow> (Q t \<or> (\<exists>i. Suc t \<le> i \<and> i < Suc (t + k) \<and> Q i))"
  by (metis Suc_leI le_eq_less_or_eq le_add1 le_imp_less_Suc Suc_leD)

lemma all_from_Suc:
  "(\<forall>i. t \<le> i \<and> i < Suc (t + k) \<longrightarrow> Q i) \<longleftrightarrow> (Q t \<and> (\<forall>i. Suc t \<le> i \<and> i < Suc (t + k) \<longrightarrow> Q i))"
  by (metis Suc_leI le_eq_less_or_eq le_add1 le_imp_less_Suc Suc_leD)

lemma ex_single: "(\<exists>i. t \<le> i \<and> i < Suc t \<and> Q i) \<longleftrightarrow> Q t"
  by (auto simp add: less_Suc_eq_le dest: le_antisym)

lemma all_single: "(\<forall>i. t \<le> i \<and> i < Suc t \<longrightarrow> Q i) \<longleftrightarrow> Q t"
  by (auto simp add: less_Suc_eq_le dest: le_antisym)

lemma result_True_iff:
  "fst (send_loop env sl m ta r False t srv) = Inr True \<longleftrightarrow>
   (\<exists>i. t \<le> i \<and> i < t + attempts (snd (send_loop env sl m ta r False t srv)) \<and>
        env i = Completed)"
proof (induction t srv rule: loop_induct [where r=r and env=env])
  case (budget t srv)
  then show ?case by (simp add: send_loop_budget attempts_def)
next
  case (completed t srv)
  then show ?case by (simp add: send_loop_Completed attempts_attempt ex_single all_single)
next
  case (failed t srv)
  from failed(2) have "env t \<noteq> Completed" by auto
  then show ?case using failed
    by (simp add: send_loop_Failed attempts_append attempts_attempt ex_from_Suc)
next
  case (uncaught t srv s x)
  then show ?case by (simp add: send_loop_Uncaught attempts_attempt ex_single)
qed

lemma result_False_iff:
  "fst (send_loop env sl m ta r False t srv) = Inr False \<longleftrightarrow>
   attempts (snd (send_loop env sl m ta r False t srv)) = nat (r - int t) \<and>
   (\<forall>i. t \<le> i \<and> i < t + attempts (snd (send_loop env sl m ta r False t srv)) \<longrightarrow>
        transient (env i))"
proof (induction t srv rule: loop_induct [where r=r and env=env])
  case (budget t srv)
  then show ?case by (auto simp add: send_loop_budget attempts_def)
next
  case (completed t srv)
  then show ?case by (simp add: send_loop_Completed attempts_attempt ex_single all_single)
next
  case (failed t srv)
  have "\<And>k. (Suc k = nat (r - int t)) = (k = nat (r - int (Suc t)))"
    using failed(1) by auto
  then show ?case using failed
    by (simp add: send_loop_Failed attempts_append attempts_attempt all_from_Suc)
next
  case (uncaught t srv s x)
  then show ?case by (simp add: send_loop_Uncaught attempts_attempt ex_single all_single)
qed

lemma earlier_transient:
  "t \<le> i \<Longrightarrow> Suc i < t + attempts (snd (send_loop env sl m ta r False t srv)) \<Longrightarrow>
   transient (env i)"
proof (induction t srv rule: loop_induct [where r=r and env=env])
  case (budget t srv)
  then show ?case by (simp add: send_loop_budget attempts_def)
next
  case (completed t srv)
  then show ?case by (simp add: send_loop_Completed attempts_attempt)
next
  case (failed t srv)
  show ?case
  proof (cases "i = t")
    case True
    then show ?thesis using failed(2) by simp
  next
    case False
    then have "Suc t \<le> i" using failed.prems(1) by simp
    then show ?thesis using failed
      by (simp add: send_loop_Failed attempts_append attempts_attempt)
  qed
next
  case (uncaught t srv s x)
  then show ?case by (simp add: send_loop_Uncaught attempts_attempt)
qed

lemma result_Inl:
  "fst (send_loop env sl m ta r False t srv) = Inl e \<Longrightarrow>
   \<exists>i s x. t \<le> i \<and> int i < r \<and> e = OtherException x \<and> env i = Raises s (OtherException x)"
proof (induction t srv rule: loop_induct [where r=r and env=env])
  case (budget t srv)
  then show ?case by (simp add: send_loop_budget)
next
  case (completed t srv)
  then show ?case by (simp add: send_loop_Completed)
next
  case (failed t srv)
  then show ?case by (simp add: send_loop_Failed) (metis Suc_leD)
next
  case (uncaught t srv s x)
  then show ?case by (auto simp add: send_loop_Uncaught)
qed

subsection \<open>Whole runs of the loop\<close>

lemma all_transient_run:
  "(\<forall>i. t \<le> i \<and> int i < r \<longrightarrow> transient (env i)) \<Longrightarrow>
   fst (send_loop env sl m ta r False t srv) = Inr False \<and>
   attempts (snd (send_loop env sl m ta r False t srv)) = nat (r - int t)"
proof (induction t srv rule: loop_induct [where r=r and env=env])
  case (budget t srv)
  then show ?case by (simp add: send_loop_budget attempts_def)
next
  case (completed t srv)
  from completed.prems completed.hyps(1) have "transient (env t)" by auto
  then show ?case using completed.hyps(2) by simp
next
  case (failed t srv)
  have "Suc (nat (r - int (Suc t))) = nat (r - int t)" using failed(1) by simp
  moreover have "\<forall>i. Suc t \<le> i \<and> int i < r \<longrightarrow> transient (env i)"
    using failed.prems by simp
  ultimately show ?case using failed
    by (simp add: send_loop_Failed attempts_append attempts_attempt)
next
  case (uncaught t srv s x)
  from uncaught.prems uncaught.hyps(1) have "transient (env t)" by auto
  then show ?case using uncaught.hyps(2) by simp
qed

lemma stops_short:
  "attempts (snd (send_loop env sl m ta r False t srv)) < nat (r - int t) \<Longrightarrow>
   0 < attempts (snd (send_loop env sl m ta r False t srv)) \<and>
   \<not> transient (env (t + attempts (snd (send_loop env sl m ta r False t srv)) - 1))"
proof (induction t srv rule: loop_induct [where r=r and env=env])
  case (budget t srv)
  then show ?case by (simp add: send_loop_budget attempts_def)
next
  case (completed t srv)
  then show ?case by (simp add: send_loop_Completed attempts_attempt)
next
  case (failed t srv)
  have "Suc (nat (r - int (Suc t))) = nat (r - int t)" using failed(1) by simp
  then show ?case using failed
    by (simp add: send_loop_Failed attempts_append attempts_attempt)
next
  case (uncaught t srv s x)
  then show ?case by (simp add: send_loop_Uncaught attempts_attempt)
qed

lemma attempts_pos:
  "int t < r \<Longrightarrow> 0 < attempts (snd (send_loop env sl m ta r False t srv))"
  by (cases rule: loop_cases [where t=t and r=r and env=env])
     (simp_all add: send_loop_Completed send_loop_Failed send_loop_Uncaught attempts_append
        attempts_attempt)

lemma run_prefix:
  "(\<forall>j. t \<le> j \<and> j < t + d \<longrightarrow> transient (env j)) \<Longrightarrow> int (t + d) \<le> r \<Longrightarrow>
   \<exists>pre srv'. send_loop env sl m ta r False t srv =
       (fst (send_loop env sl m ta r False (t + d) srv'),
        pre @ snd (send_loop env sl m ta r False (t + d) srv')) \<and>
     attempts pre = d"
proof (induction d)
  case 0
  have "send_loop env sl m ta r False t srv =
       (fst (send_loop env sl m ta r False (t + 0) srv),
        [] @ snd (send_loop env sl m ta r False (t + 0) srv)) \<and> attempts [] = 0"
    by (simp add: attempts_def)
  then show ?case by blast
next
  case (Suc d)
  then obtain pre srv' where p:
    "send_loop env sl m ta r False t srv =
       (fst (send_loop env sl m ta r False (t + d) srv'),
        pre @ snd (send_loop env sl m ta r False (t + d) srv'))" and a: "attempts pre = d"
    by auto
  have lt: "int (t + d) < r" and tr: "transient (env (t + d))" using Suc.prems by simp_all
  let ?ae = "attempt_events sl m ta (env (t + d)) (t + d) srv'"
  let ?srv = "bound_after (env (t + d)) (t + d) srv'"
  have "send_loop env sl m ta r False t srv =
       (fst (send_loop env sl m ta r False (t + Suc d) ?srv),
        (pre @ ?ae) @ snd (send_loop env sl m ta r False (t + Suc d) ?srv)) \<and>
     attempts (pre @ ?ae) = Suc d"
    using p a by (simp add: send_loop_Failed [where env=env and tries="t + d", OF lt tr] attempts_append attempts_attempt)
  then show ?case by blast
qed

lemma example_mail_recipients:
  "to (projr example_mail) @ bcc (projr example_mail) =
     [''x@example.com'', ''y@example.com'', ''z@example.com'']"
  by (simp add: example_mail_def Mail_init_def Let_def)

subsection \<open>One attempt within a run\<close>

lemma attempts_Cons: "attempts (ev # tr) = (if is_SMTP ev then 1 else 0) + attempts tr"
  by (simp add: attempts_def)

lemma nth_attempt:
  assumes "to m @ bcc m \<noteq> []" and "int i < retries" and "\<forall>j<i. transient (env j)"
    and "transient (env i)"
  shows "\<exists>pre srv.
           send env sl m retries =
             (fst (send_loop env sl m (to m @ bcc m) retries False (Suc i)
                     (bound_after (env i) i srv)),
              pre @ attempt_events sl m (to m @ bcc m) (env i) i srv @
              snd (send_loop env sl m (to m @ bcc m) retries False (Suc i)
                     (bound_after (env i) i srv))) \<and>
           attempts pre = i"
proof -
  let ?ta = "to m @ bcc m"
  have "\<forall>j. 0 \<le> j \<and> j < 0 + i \<longrightarrow> transient (env j)" using assms(3) by simp
  moreover have "int (0 + i) \<le> retries" using assms(2) by simp
  ultimately obtain pre srv where
    p: "send_loop env sl m ?ta retries False 0 None =
          (fst (send_loop env sl m ?ta retries False (0 + i) srv),
           pre @ snd (send_loop env sl m ?ta retries False (0 + i) srv))"
    and a: "attempts pre = i"
    using run_prefix [of 0 i env retries sl m ?ta None] by blast
  have "send env sl m retries =
          (fst (send_loop env sl m ?ta retries False (Suc i) (bound_after (env i) i srv)),
           pre @ attempt_events sl m ?ta (env i) i srv @
           snd (send_loop env sl m ?ta retries False (Suc i) (bound_after (env i) i srv)))"
    using assms(1) p
    by (simp add: send_def send_loop_Failed [where env=env and tries=i, OF assms(2) assms(4)])
  with a show ?thesis by blast
qed

lemma sleeps_append: "sleeps (xs @ ys) = sleeps xs @ sleeps ys"
  by (induction xs rule: sleeps.induct) simp_all

lemma sleeps_body: "sleeps (body_events m ta oc) = []"
  by (cases oc rule: calls_made.cases) (simp_all add: body_events_def body_calls_def)

lemma sleeps_finally: "sleeps (finally_events srv) = []"
  by (cases srv) simp_all

lemma sleeps_auth_attempt:
  "sleeps (attempt_events sl m ta (Raises s SMTPAuthenticationError) t srv) = [t]"
  by (simp add: attempt_events_def sleeps_append sleeps_body sleeps_finally)

lemma three_auth_run:
  assumes "to m @ bcc m \<noteq> []"
    and "env 0 = Raises s0 SMTPAuthenticationError"
    and "env (Suc 0) = Raises s1 SMTPAuthenticationError"
    and "env (Suc (Suc 0)) = Raises s2 SMTPAuthenticationError"
  shows "send env sl m 3 =
           (Inr False,
            attempt_events sl m (to m @ bcc m) (Raises s0 SMTPAuthenticationError) 0 None @
            attempt_events sl m (to m @ bcc m) (Raises s1 SMTPAuthenticationError) (Suc 0)
              (bound_after (Raises s0 SMTPAuthenticationError) 0 None) @
            attempt_events sl m (to m @ bcc m) (Raises s2 SMTPAuthenticationError) (Suc (Suc 0))
              (bound_after (Raises s1 SMTPAuthenticationError) (Suc 0)
                 (bound_after (Raises s0 SMTPAuthenticationError) 0 None)))"
proof -
  let ?ta = "to m @ bcc m"
  have l3: "\<And>srv. send_loop env sl m ?ta 3 False (Suc (Suc (Suc 0))) srv = (Inr False, [])"
    by (simp add: send_loop_budget)
  have l2: "\<And>srv. send_loop env sl m ?ta 3 False (Suc (Suc 0)) srv =
      (Inr False, attempt_events sl m ?ta (Raises s2 SMTPAuthenticationError) (Suc (Suc 0)) srv)"
    by (subst send_loop_Failed) (simp_all add: assms(4) l3)
  have l1: "\<And>srv. send_loop env sl m ?ta 3 False (Suc 0) srv =
      (Inr False,
       attempt_events sl m ?ta (Raises s1 SMTPAuthenticationError) (Suc 0) srv @
       attempt_events sl m ?ta (Raises s2 SMTPAuthenticationError) (Suc (Suc 0))
         (bound_after (Raises s1 SMTPAuthenticationError) (Suc 0) srv))"
    by (subst send_loop_Failed) (simp_all add: assms(3) l2)
  have l0: "send_loop env sl m ?ta 3 False 0 None =
      (Inr False,
       attempt_events sl m ?ta (Raises s0 SMTPAuthenticationError) 0 None @
       attempt_events sl m ?ta (Raises s1 SMTPAuthenticationError) (Suc 0)
         (bound_after (Raises s0 SMTPAuthenticationError) 0 None) @
       attempt_events sl m ?ta (Raises s2 SMTPAuthenticationError) (Suc (Suc 0))
         (bound_after (Raises s1 SMTPAuthenticationError) (Suc 0)
            (bound_after (Raises s0 SMTPAuthenticationError) 0 None)))"
    by (subst send_loop_Failed) (simp_all add: assms(2) l1)
  show ?thesis using assms(1) by (simp add: send_def l0)
qed

subsection \<open>What is printed, and what can leave send\<close>

lemma prints_append: "prints (xs @ ys) = prints xs + prints ys"
  by (simp add: prints_def)

lemma prints_body: "prints (body_events m ta oc) = 0"
  by (cases oc rule: calls_made.cases) (simp_all add: prints_def body_events_def body_calls_def)

lemma prints_finally: "prints (finally_events srv) = 0"
  by (cases srv) (simp_all add: prints_def)

lemma prints_Cons: "prints (ev # tr) = (if is_Print ev then 1 else 0) + prints tr"
  by (simp add: prints_def)

lemma prints_transient_attempt:
  "transient oc \<Longrightarrow> prints (attempt_events sl m ta oc t srv) = 1"
  by (cases oc rule: transient.cases)
     (simp_all add: attempt_events_def prints_append prints_body prints_finally prints_Cons)

lemma all_transient_prints:
  "(\<forall>i. t \<le> i \<and> int i < r \<longrightarrow> transient (env i)) \<Longrightarrow>
   prints (snd (send_loop env sl m ta r False t srv)) = nat (r - int t)"
proof (induction t srv rule: loop_induct [where r=r and env=env])
  case (budget t srv)
  then show ?case by (simp add: send_loop_budget prints_def)
next
  case (completed t srv)
  from completed.prems completed.hyps(1) have "transient (env t)" by auto
  then show ?case using completed.hyps(2) by simp
next
  case (failed t srv)
  have "Suc (nat (r - int (Suc t))) = nat (r - int t)" using failed(1) by simp
  moreover have "\<forall>i. Suc t \<le> i \<and> int i < r \<longrightarrow> transient (env i)"
    using failed.prems by simp
  ultimately show ?case using failed
    by (simp add: send_loop_Failed prints_append prints_transient_attempt)
next
  case (uncaught t srv s x)
  from uncaught.prems uncaught.hyps(1) have "transient (env t)" by auto
  then show ?case using uncaught.hyps(2) by simp
qed

lemma send_result_Inl:
  assumes "fst (send env sl m retries) = Inl e"
  shows "\<exists>i s x. int i < retries \<and> e = OtherException x \<and> env i = Raises s (OtherException x)"
proof (cases "to m @ bcc m = []")
  case True
  then show ?thesis using assms by (simp add: send_def)
next
  case False
  then have "fst (send_loop env sl m (to m @ bcc m) retries False 0 None) = Inl e"
    using assms by (simp add: send_def)
  from result_Inl [OF this] show ?thesis by blast
qed

subsection \<open>The arguments of sendmail\<close>

lemma sendmail_in_attempt:
  assumes "Sendmail f rc b \<in> set (attempt_events sl m ta oc t srv)"
  shows "f = user (sender m) \<and> rc = ta \<and> b = msg m"
proof -
  have h: "Sendmail f rc b \<notin> set (fst (handler sl m oc t))"
    by (cases oc rule: transient.cases) simp_all
  have c: "Sendmail f rc b \<notin> set (finally_events (bound_after oc t srv))"
    by (cases "bound_after oc t srv") simp_all
  from assms h c have "Sendmail f rc b \<in> set (body_events m ta oc)"
    by (simp add: attempt_events_def)
  then have "Sendmail f rc b \<in> set (body_calls m ta)"
    unfolding body_events_def by (rule in_set_takeD)
  then show ?thesis by (auto simp add: body_calls_def)
qed

lemma sendmail_in_loop:
  "Sendmail f rc b \<in> set (snd (send_loop env sl m ta r False t srv)) \<Longrightarrow>
   f = user (sender m) \<and> rc = ta \<and> b = msg m"
proof (induction t srv rule: loop_induct [where r=r and env=env])
  case (budget t srv)
  then show ?case by (simp add: send_loop_budget)
next
  case (completed t srv)
  then show ?case by (auto simp add: send_loop_Completed dest: sendmail_in_attempt)
next
  case (failed t srv)
  then show ?case by (auto simp add: send_loop_Failed dest: sendmail_in_attempt)
next
  case (uncaught t srv s x)
  then show ?case by (auto simp add: send_loop_Uncaught dest: sendmail_in_attempt)
qed

lemma sendmail_in_send:
  assumes "Sendmail f rc b \<in> set (snd (send env sl m retries))"
  shows "f = user (sender m) \<and> rc = to m @ bcc m \<and> b = msg m"
proof (cases "to m @ bcc m = []")
  case True
  then show ?thesis using assms by (simp add: send_def)
next
  case False
  then show ?thesis using assms sendmail_in_loop [of f rc b env sl m "to m @ bcc m" retries 0 None]
    by (simp add: send_def)
qed

lemma first_attempt_completed:
  assumes "to m @ bcc m \<noteq> []" and "0 < retries" and "env 0 = Completed"
  shows "send env sl m retries = (Inr True, body_calls m (to m @ bcc m) @ [Close 0])"
  using assms
  by (simp add: send_def send_loop_Completed attempt_events_def body_events_def body_calls_def)

lemma join_sep:
  "xs \<noteq> [] \<Longrightarrow> join sep xs @ sep = concat (map (\<lambda>x. x @ sep) xs)"
  by (induction sep xs rule: join.induct) simp_all

lemma plain_mail_init:
  "Mail_init example_sender (PyList [''x@example.com'', ''y@example.com'']) ''subject''
     ''hello'' None PyNone None None ''mixed'' ''now'' = Inr (projr plain_mail)"
  by (simp add: plain_mail_def Mail_init_def Let_def)

lemma plain_mail_constructed: "\<not> isl plain_mail"
  by (simp add: plain_mail_def Mail_init_def Let_def)

lemma uncaught_attempt:
  assumes "to m @ bcc m \<noteq> []" and "int i < retries" and "\<forall>j<i. transient (env j)"
    and "env i = Raises s (OtherException x)"
  shows "fst (send env sl m retries) = Inl (OtherException x)"
proof -
  let ?ta = "to m @ bcc m"
  have "\<forall>j. 0 \<le> j \<and> j < 0 + i \<longrightarrow> transient (env j)" using assms(3) by simp
  moreover have "int (0 + i) \<le> retries" using assms(2) by simp
  ultimately obtain pre srv where
    p: "send_loop env sl m ?ta retries False 0 None =
          (fst (send_loop env sl m ?ta retries False (0 + i) srv),
           pre @ snd (send_loop env sl m ?ta retries False (0 + i) srv))"
    using run_prefix [of 0 i env retries sl m ?ta None] by blast
  show ?thesis
    using assms(1) p
    by (simp add: send_def
        send_loop_Uncaught [where env=env and tries=i, OF assms(2) assms(4)])
qed

section \<open>Construction\<close>

lemma header_of_init:
  assumes "Mail_init sndr to_arg subject text attachments bcc_arg reply_to_arg custom_to_header
             root_msg_mime_subtype now = Inr m"
  shows "headers (msg m) =
           [(''Subject'', Some subject),
            (''To'', Some (to_header (as_list to_arg) custom_to_header)),
            (''From'', Some (from_header sndr)),
            (''Reply-To'', reply_to_header sndr reply_to_arg),
            (''Date'', Some now)]"
    and "to m = as_list to_arg" and "bcc m = as_list bcc_arg" and "sender m = sndr"
  using assms by (auto simp add: Mail_init_def Let_def split: if_splits)


text \<open>
  Claim C2, as amended. Constructing a Mail raises (a \<^verbatim>\<open>ValueError\<close> with the message
  "Mail: No recipient given") exactly when \<^verbatim>\<open>to\<close> is \<^verbatim>\<open>None\<close>. For every other
  \<^verbatim>\<open>to\<close>, a string or a list of strings, the empty string and the empty list
  included, construction returns a Mail whose \<^verbatim>\<open>to\<close> is the argument as a list.
\<close>

theorem init_raises_iff_None:
  "(Mail_init sndr to_arg subject text attachments bcc_arg reply_to_arg custom_to_header
      root_msg_mime_subtype now = Inl (ValueError ''Mail: No recipient given'')) =
     (to_arg = PyNone) \<and>
   isl (Mail_init sndr to_arg subject text attachments bcc_arg reply_to_arg custom_to_header
      root_msg_mime_subtype now) = (to_arg = PyNone) \<and>
   (to_arg \<noteq> PyNone \<longrightarrow>
      to (projr (Mail_init sndr to_arg subject text attachments bcc_arg reply_to_arg
        custom_to_header root_msg_mime_subtype now)) = as_list to_arg)"
  by (simp add: Mail_init_def Let_def)

theorem init_raises_iff_None_witness:
  "Mail_init example_sender PyNone [] [] None PyNone None None ''mixed'' ''now'' =
     Inl (ValueError ''Mail: No recipient given'') \<and>
   \<not> isl (Mail_init example_sender (PyStr []) [] [] None PyNone None None ''mixed'' ''now'') \<and>
   to (projr (Mail_init example_sender (PyStr []) [] [] None PyNone None None ''mixed'' ''now'')) = [[]] \<and>
   to (projr (Mail_init example_sender (PyList [''x'', ''y'']) [] [] None PyNone None None ''mixed'' ''now'')) = [''x'', ''y'']"
  using init_raises_iff_None [of example_sender PyNone "[]" "[]" None PyNone None None "''mixed''" "''now''"]
    init_raises_iff_None [of example_sender "PyStr []" "[]" "[]" None PyNone None None "''mixed''" "''now''"]
    init_raises_iff_None [of example_sender "PyList [''x'', ''y'']" "[]" "[]" None PyNone None None "''mixed''" "''now''"]
  by simp

text \<open>
  Claim C2 as it is written fails for the empty sequence: \<^verbatim>\<open>Mail(example_sender, [])\<close>
  does not raise, and the Mail it returns has an empty \<^verbatim>\<open>to\<close>.
\<close>

theorem init_empty_list_counterexample:
  "\<not> isl (Mail_init example_sender (PyList []) [] [] None PyNone None None ''mixed'' ''now'') \<and>
   to (projr (Mail_init example_sender (PyList []) [] [] None PyNone None None ''mixed'' ''now'')) = []"
  by (simp add: Mail_init_def)

text \<open>
  Claim C7, as amended. The \<^verbatim>\<open>Reply-To\<close> header of a constructed Mail is the
  \<^verbatim>\<open>reply_to\<close> argument of the Mail when that is given and not the empty string;
  otherwise the sender's \<^verbatim>\<open>reply_to\<close> when that is set and not the empty string;
  otherwise the sender's \<^verbatim>\<open>from_\<close>, which may be absent.
\<close>

theorem reply_to_precedence:
  assumes "Mail_init sndr to_arg subject text attachments bcc_arg reply_to_arg custom_to_header
             root_msg_mime_subtype now = Inr m"
  shows "get_header (msg m) ''Reply-To'' =
           (if reply_to_arg \<noteq> None \<and> reply_to_arg \<noteq> Some [] then reply_to_arg
            else if reply_to sndr \<noteq> None \<and> reply_to sndr \<noteq> Some [] then reply_to sndr
            else from_addr sndr)"
proof -
  have t: "\<And>x. truthy x = (x \<noteq> None \<and> x \<noteq> Some [])"
    by (case_tac x) simp_all
  have "get_header (msg m) ''Reply-To'' = reply_to_header sndr reply_to_arg"
    using header_of_init(1) [OF assms]
    by (cases "reply_to_header sndr reply_to_arg") (simp_all add: get_header_def)
  then show ?thesis by (simp add: reply_to_header_def t)
qed

theorem reply_to_precedence_witness:
  "get_header (msg (projr (Mail_init replying_sender (PyStr ''x'') [] [] None PyNone (Some ''b'')
      None ''mixed'' ''now''))) ''Reply-To'' = Some ''b'' \<and>
   get_header (msg (projr (Mail_init replying_sender (PyStr ''x'') [] [] None PyNone None
      None ''mixed'' ''now''))) ''Reply-To'' = Some ''a'' \<and>
   get_header (msg (projr (Mail_init example_sender (PyStr ''x'') [] [] None PyNone None
      None ''mixed'' ''now''))) ''Reply-To'' = Some ''Me <me@example.com>''"
proof -
  have i: "\<And>s r. Mail_init s (PyStr ''x'') [] [] None PyNone r None ''mixed'' ''now'' =
     Inr (projr (Mail_init s (PyStr ''x'') [] [] None PyNone r None ''mixed'' ''now''))"
    by (simp add: Mail_init_def Let_def)
  show ?thesis
    using reply_to_precedence [OF i [of replying_sender "Some ''b''"]]
      reply_to_precedence [OF i [of replying_sender None]]
      reply_to_precedence [OF i [of example_sender None]]
    by (simp add: replying_sender_def example_sender_def)
qed

text \<open>
  Claim C7 as it is written fails for a given but empty \<^verbatim>\<open>reply_to\<close>: with the
  sender's \<^verbatim>\<open>reply_to\<close> "a" and the Mail's \<^verbatim>\<open>reply_to\<close> "" the header is "a".
\<close>

theorem reply_to_empty_counterexample:
  "get_header (msg (projr (Mail_init replying_sender (PyStr ''x'') [] [] None PyNone (Some [])
      None ''mixed'' ''now''))) ''Reply-To'' = Some ''a'' \<and>
   get_header (msg (projr (Mail_init replying_sender (PyStr ''x'') [] [] None PyNone (Some [])
      None ''mixed'' ''now''))) ''Reply-To'' \<noteq> Some []"
  by (simp add: Mail_init_def Let_def get_header_def reply_to_header_def replying_sender_def
      example_sender_def)

section \<open>Sending\<close>

text \<open>
  Claim C5. When \<^verbatim>\<open>to\<close> concatenated with \<^verbatim>\<open>bcc\<close> is empty, \<^verbatim>\<open>send\<close> returns
  \<^verbatim>\<open>True\<close> and all it does is print the notice that no mails were sent: no call on the
  transport is made, whatever the server would do and whatever the retry budget is.
\<close>

theorem send_without_recipients:
  assumes "to m @ bcc m = []"
  shows "send env str_list m retries =
           (Inr True, [Print ''No mail adresses given, no mails sent.''])"
  using assms by (simp add: send_def)

theorem send_without_recipients_witness:
  "to (projr empty_mail) @ bcc (projr empty_mail) = [] \<and>
   \<not> isl empty_mail \<and>
   send always_ok example_str_list (projr empty_mail) default_retries =
     (Inr True, [Print ''No mail adresses given, no mails sent.''])"
proof -
  have e: "to (projr empty_mail) @ bcc (projr empty_mail) = []"
    by (simp add: empty_mail_def Mail_init_def)
  show ?thesis
    using e send_without_recipients [OF e, of always_ok example_str_list default_retries]
    by (simp add: empty_mail_def Mail_init_def)
qed

text \<open>
  Claim C8. The \<^verbatim>\<open>To\<close> header of a constructed Mail is the \<^verbatim>\<open>custom_to_header\<close> as
  it is when one is given. When none is given it is the \<^verbatim>\<open>to\<close> list joined by commas:
  empty for the empty list, and otherwise the string that, with one more comma at its end,
  is every address of \<^verbatim>\<open>to\<close> in order, each followed by a comma. Whichever it is, every
  \<^verbatim>\<open>sendmail\<close> call of \<^verbatim>\<open>send\<close> gets \<^verbatim>\<open>to\<close> followed by \<^verbatim>\<open>bcc\<close> as its
  recipients, and an attempt whose calls all return makes that call.
\<close>

theorem to_header_and_delivery:
  assumes "Mail_init sndr to_arg subject text attachments bcc_arg reply_to_arg custom_to_header
             root_msg_mime_subtype now = Inr m"
  shows "(\<forall>h. custom_to_header = Some h \<longrightarrow> get_header (msg m) ''To'' = Some h) \<and>
         (custom_to_header = None \<and> as_list to_arg = [] \<longrightarrow>
            get_header (msg m) ''To'' = Some []) \<and>
         (custom_to_header = None \<and> as_list to_arg \<noteq> [] \<longrightarrow>
            (\<exists>h. get_header (msg m) ''To'' = Some h \<and>
                 h @ '','' = concat (map (\<lambda>x. x @ '','') (as_list to_arg)))) \<and>
         (\<forall>f rc b. Sendmail f rc b \<in> set (snd (send env str_list m retries)) \<longrightarrow>
            rc = as_list to_arg @ as_list bcc_arg) \<and>
         (as_list to_arg @ as_list bcc_arg \<noteq> [] \<and> 0 < retries \<and> env 0 = Completed \<longrightarrow>
            Sendmail (user sndr) (as_list to_arg @ as_list bcc_arg) (msg m)
              \<in> set (snd (send env str_list m retries)))"
proof -
  note h = header_of_init [OF assms]
  have t: "get_header (msg m) ''To'' = Some (to_header (as_list to_arg) custom_to_header)"
    by (simp add: h(1) get_header_def)
  have a1: "\<forall>h. custom_to_header = Some h \<longrightarrow> get_header (msg m) ''To'' = Some h"
    by (simp add: t to_header_def)
  have a2: "custom_to_header = None \<and> as_list to_arg = [] \<longrightarrow>
              get_header (msg m) ''To'' = Some []"
    by (simp add: t to_header_def)
  have a3: "custom_to_header = None \<and> as_list to_arg \<noteq> [] \<longrightarrow>
            (\<exists>h. get_header (msg m) ''To'' = Some h \<and>
                 h @ '','' = concat (map (\<lambda>x. x @ '','') (as_list to_arg)))"
    using join_sep [of "as_list to_arg" "'',''"] by (simp add: t to_header_def)
  have b: "\<forall>f rc b. Sendmail f rc b \<in> set (snd (send env str_list m retries)) \<longrightarrow>
            rc = as_list to_arg @ as_list bcc_arg"
    using sendmail_in_send [of _ _ _ env str_list m retries] by (simp add: h(2,3))
  have c: "as_list to_arg @ as_list bcc_arg \<noteq> [] \<and> 0 < retries \<and> env 0 = Completed \<longrightarrow>
            Sendmail (user sndr) (as_list to_arg @ as_list bcc_arg) (msg m)
              \<in> set (snd (send env str_list m retries))"
    using first_attempt_completed [of m retries env str_list]
    by (simp add: h(2,3,4) body_calls_def)
  from a1 a2 a3 b c show ?thesis by blast
qed

theorem to_header_and_delivery_witness:
  "\<not> isl example_mail \<and>
   get_header (msg (projr example_mail)) ''To'' = Some ''Team <team@example.com>'' \<and>
   Sendmail ''me@example.com'' [''x@example.com'', ''y@example.com'', ''z@example.com'']
     (msg (projr example_mail))
     \<in> set (snd (send always_ok example_str_list (projr example_mail) default_retries)) \<and>
   \<not> isl plain_mail \<and>
   get_header (msg (projr plain_mail)) ''To'' = Some ''x@example.com,y@example.com'' \<and>
   Sendmail ''me@example.com'' [''x@example.com'', ''y@example.com''] (msg (projr plain_mail))
     \<in> set (snd (send always_ok example_str_list (projr plain_mail) default_retries))"
proof -
  have i: "Mail_init example_sender (PyList [''x@example.com'', ''y@example.com'']) ''subject''
       ''hello'' None (PyStr ''z@example.com'') None (Some ''Team <team@example.com>'')
       ''mixed'' ''now'' = Inr (projr example_mail)"
    by (simp add: example_mail_def Mail_init_def Let_def)
  have j: "\<not> isl example_mail"
    by (simp add: example_mail_def Mail_init_def Let_def)
  note e = to_header_and_delivery [OF i, of always_ok example_str_list default_retries]
  note p = to_header_and_delivery [OF plain_mail_init, of always_ok example_str_list
             default_retries]
  from p obtain h where
    h: "get_header (msg (projr plain_mail)) ''To'' = Some h"
    and "h @ '','' = concat (map (\<lambda>x. x @ '','') (as_list (PyList [''x@example.com'',
           ''y@example.com''])))"
    by auto
  then have "h @ '','' = ''x@example.com,y@example.com'' @ '',''" by simp
  then have "h = ''x@example.com,y@example.com''" by (simp only: append_same_eq)
  with h have q: "get_header (msg (projr plain_mail)) ''To'' = Some ''x@example.com,y@example.com''"
    by simp
  show ?thesis
    using j e p q plain_mail_constructed
    by (simp add: always_ok_def default_retries_def example_sender_def)
qed

text \<open>
  Claim C10. Every \<^verbatim>\<open>sendmail\<close> call of \<^verbatim>\<open>send\<close>, in every attempt, gets the
  sender's login \<^verbatim>\<open>user\<close> as the envelope sender, for every Mail, hence also when the
  sender has a \<^verbatim>\<open>from_\<close> that the \<^verbatim>\<open>From\<close> header shows instead; and an attempt
  whose calls all return makes that call.
\<close>

theorem envelope_sender_is_user:
  "(\<forall>f rc b. Sendmail f rc b \<in> set (snd (send env str_list m retries)) \<longrightarrow>
      f = user (sender m)) \<and>
   (to m @ bcc m \<noteq> [] \<and> 0 < retries \<and> env 0 = Completed \<longrightarrow>
      Sendmail (user (sender m)) (to m @ bcc m) (msg m)
        \<in> set (snd (send env str_list m retries)))"
proof -
  have a: "\<forall>f rc b. Sendmail f rc b \<in> set (snd (send env str_list m retries)) \<longrightarrow>
             f = user (sender m)"
    using sendmail_in_send [of _ _ _ env str_list m retries] by simp
  have b: "to m @ bcc m \<noteq> [] \<and> 0 < retries \<and> env 0 = Completed \<longrightarrow>
      Sendmail (user (sender m)) (to m @ bcc m) (msg m)
        \<in> set (snd (send env str_list m retries))"
    using first_attempt_completed [of m retries env str_list] by (simp add: body_calls_def)
  from a b show ?thesis by blast
qed

theorem envelope_sender_is_user_witness:
  "get_header (msg (projr example_mail)) ''From'' = Some ''Me <me@example.com>'' \<and>
   Sendmail ''me@example.com'' (to (projr example_mail) @ bcc (projr example_mail))
     (msg (projr example_mail))
     \<in> set (snd (send always_ok example_str_list (projr example_mail) default_retries)) \<and>
   Sendmail ''Me <me@example.com>'' (to (projr example_mail) @ bcc (projr example_mail))
     (msg (projr example_mail))
     \<notin> set (snd (send always_ok example_str_list (projr example_mail) default_retries))"
proof -
  have u: "user (sender (projr example_mail)) = ''me@example.com''"
    and n: "to (projr example_mail) @ bcc (projr example_mail) \<noteq> []"
    and f: "get_header (msg (projr example_mail)) ''From'' = Some ''Me <me@example.com>''"
    by (simp_all add: example_mail_def Mail_init_def Let_def example_sender_def get_header_def
        from_header_def)
  show ?thesis
    using envelope_sender_is_user [of always_ok example_str_list "projr example_mail" default_retries]
      u n f
    by (auto simp add: always_ok_def default_retries_def)
qed

text \<open>
  Claim C1. With a recipient in \<^verbatim>\<open>to\<close> or \<^verbatim>\<open>bcc\<close> and the default budget of 3,
  \<^verbatim>\<open>send\<close> makes at most 3 attempts. It returns \<^verbatim>\<open>True\<close> exactly when one of the
  attempts it made succeeded. Every attempt but the last one it made failed with an error
  that is retried, so no attempt follows a success; and it stops before the third attempt
  only after an attempt that did not fail in that way. It returns \<^verbatim>\<open>False\<close> exactly
  when it made 3 attempts and each of them failed with an error that is retried.
\<close>

theorem send_default_budget:
  assumes "to m @ bcc m \<noteq> []"
  shows "attempts (snd (send env str_list m default_retries)) \<le> 3 \<and>
         (fst (send env str_list m default_retries) = Inr True \<longleftrightarrow>
            (\<exists>i < attempts (snd (send env str_list m default_retries)). env i = Completed)) \<and>
         (\<forall>i. Suc i < attempts (snd (send env str_list m default_retries)) \<longrightarrow>
            transient (env i)) \<and>
         (attempts (snd (send env str_list m default_retries)) < 3 \<longrightarrow>
            0 < attempts (snd (send env str_list m default_retries)) \<and>
            \<not> transient (env (attempts (snd (send env str_list m default_retries)) - 1))) \<and>
         (fst (send env str_list m default_retries) = Inr False \<longleftrightarrow>
            attempts (snd (send env str_list m default_retries)) = 3 \<and>
            (\<forall>i < 3. transient (env i)))"
proof -
  let ?loop = "send_loop env str_list m (to m @ bcc m) 3 False 0 None"
  have s: "send env str_list m default_retries = ?loop"
    using assms by (simp add: send_def default_retries_def)
  have a: "attempts (snd ?loop) \<le> 3"
    using attempts_le [of env str_list m "to m @ bcc m" 3 0 None] by simp
  have b: "fst ?loop = Inr True \<longleftrightarrow> (\<exists>i < attempts (snd ?loop). env i = Completed)"
    using result_True_iff [of env str_list m "to m @ bcc m" 3 0 None] by simp
  have c: "\<forall>i. Suc i < attempts (snd ?loop) \<longrightarrow> transient (env i)"
    using earlier_transient [of 0 _ env str_list m "to m @ bcc m" 3 None] by simp
  have d: "attempts (snd ?loop) < 3 \<longrightarrow>
             0 < attempts (snd ?loop) \<and> \<not> transient (env (attempts (snd ?loop) - 1))"
    using stops_short [of env str_list m "to m @ bcc m" 3 0 None] by simp
  have e: "fst ?loop = Inr False \<longleftrightarrow>
             attempts (snd ?loop) = 3 \<and> (\<forall>i < 3. transient (env i))"
    using result_False_iff [of env str_list m "to m @ bcc m" 3 0 None] by auto
  from a b c d e show ?thesis unfolding s by blast
qed

theorem send_default_budget_witness:
  "to (projr example_mail) @ bcc (projr example_mail) \<noteq> [] \<and>
   fst (send refused_then_ok example_str_list (projr example_mail) default_retries) = Inr True \<and>
   attempts (snd (send refused_then_ok example_str_list (projr example_mail) default_retries)) = 2 \<and>
   refused_then_ok 1 = Completed \<and>
   fst (send always_refused example_str_list (projr example_mail) default_retries) = Inr False \<and>
   attempts (snd (send always_refused example_str_list (projr example_mail) default_retries)) = 3"
proof -
  have n: "to (projr example_mail) @ bcc (projr example_mail) \<noteq> []"
    by (simp add: example_mail_recipients)
  have r: "\<forall>i<3. transient (always_refused i)"
    by (simp add: always_refused_def)
  have k: "attempts (snd (send refused_then_ok example_str_list (projr example_mail)
             default_retries)) = 2"
    using n
    by (simp add: send_def default_retries_def send_loop_Failed send_loop_Completed
        refused_then_ok_def attempts_append attempts_attempt)
  show ?thesis
    using n r k send_default_budget [OF n, of refused_then_ok example_str_list]
      send_default_budget [OF n, of always_refused example_str_list]
    by (auto simp add: refused_then_ok_def)
qed

text \<open>
  Claim C3. Let the attempt with \<^verbatim>\<open>tries = i\<close> be made (the budget allows it and all
  earlier attempts failed with errors that are retried) and fail with an \<^verbatim>\<open>OSError\<close>
  that is no authentication failure. Then, after the calls of that attempt, \<^verbatim>\<open>send\<close>
  prints the message and sleeps \<open>i\<^sup>2\<close> seconds, closes the connection and goes on with
  the loop at \<^verbatim>\<open>tries = i + 1\<close>. The message names \<^verbatim>\<open>self.to\<close>, "once" for
  \<open>i = 0\<close>, "twice" for \<open>i = 1\<close> and "\<open>i + 1\<close> times" from then on, the error and
  the wait \<open>i\<^sup>2\<close>.
\<close>

theorem oserror_backoff:
  assumes "to m @ bcc m \<noteq> []" and "int i < retries" and "\<forall>j<i. transient (env j)"
    and "env i = Raises s (OSError err)"
  shows "(\<exists>pre srv.
            snd (send env str_list m retries) =
              pre @ [Print (failed_msg str_list m i err), Sleep (i ^ 2)] @ finally_events srv @
              snd (send_loop env str_list m (to m @ bcc m) retries False (Suc i) srv) \<and>
            attempts pre = Suc i) \<and>
         failed_msg str_list m i err =
           ''Failed sending to <'' @ str_list (to m) @ ''> '' @
           (if i = 0 then ''once'' else if i = 1 then ''twice'' else str_nat (i + 1) @ '' times'') @
           '': '' @ err @ '' (waiting '' @ str_nat (i ^ 2) @ ''s)''"
proof -
  let ?ta = "to m @ bcc m"
  have tr: "transient (env i)" using assms(4) by simp
  obtain pre srv where
    p: "send env str_list m retries =
          (fst (send_loop env str_list m ?ta retries False (Suc i) (bound_after (env i) i srv)),
           pre @ attempt_events str_list m ?ta (env i) i srv @
           snd (send_loop env str_list m ?ta retries False (Suc i) (bound_after (env i) i srv)))"
    and a: "attempts pre = i"
    using nth_attempt [OF assms(1-3) tr, of str_list] by blast
  let ?pre = "pre @ body_events m ?ta (env i)"
  let ?srv = "bound_after (env i) i srv"
  have "snd (send env str_list m retries) =
          ?pre @ [Print (failed_msg str_list m i err), Sleep (i ^ 2)] @ finally_events ?srv @
          snd (send_loop env str_list m ?ta retries False (Suc i) ?srv) \<and>
        attempts ?pre = Suc i"
    using a by (simp add: p attempt_events_def assms(4) attempts_append attempts_body)
  then have first: "\<exists>pre srv.
            snd (send env str_list m retries) =
              pre @ [Print (failed_msg str_list m i err), Sleep (i ^ 2)] @ finally_events srv @
              snd (send_loop env str_list m (to m @ bcc m) retries False (Suc i) srv) \<and>
            attempts pre = Suc i"
    by blast
  have o: "ordinal i =
      (if i = 0 then ''once'' else if i = 1 then ''twice'' else str_nat (i + 1) @ '' times'')"
  proof (cases "i = 0 \<or> i = 1")
    case True
    then show ?thesis by (auto simp add: ordinal_def)
  next
    case False
    then have "min i 2 = Suc (Suc 0)" by simp
    then show ?thesis using False by (simp add: ordinal_def del: str_nat.simps)
  qed
  have second: "failed_msg str_list m i err =
           ''Failed sending to <'' @ str_list (to m) @ ''> '' @
           (if i = 0 then ''once'' else if i = 1 then ''twice'' else str_nat (i + 1) @ '' times'') @
           '': '' @ err @ '' (waiting '' @ str_nat (i ^ 2) @ ''s)''"
    unfolding failed_msg_def o ..
  from first second show ?thesis by (rule conjI)
qed

theorem oserror_backoff_witness:
  "to (projr example_mail) @ bcc (projr example_mail) \<noteq> [] \<and>
   always_refused 2 = Raises AtSMTP (OSError ''[Errno 111] Connection refused'') \<and>
   (\<exists>pre post.
      snd (send always_refused example_str_list (projr example_mail) default_retries) =
        pre @
        [Print ''Failed sending to <['x@example.com', 'y@example.com']> 3 times: [Errno 111] Connection refused (waiting 4s)'',
         Sleep 4] @ post \<and>
      attempts pre = 3)"
proof -
  have n: "to (projr example_mail) @ bcc (projr example_mail) \<noteq> []"
    by (simp add: example_mail_recipients)
  have b: "int 2 < default_retries" by (simp add: default_retries_def)
  have e: "\<forall>j<2. transient (always_refused j)" by (simp add: always_refused_def)
  have o: "always_refused 2 = Raises AtSMTP (OSError ''[Errno 111] Connection refused'')"
    by (simp add: always_refused_def)
  have t: "to (projr example_mail) = [''x@example.com'', ''y@example.com'']"
    by (simp add: example_mail_def Mail_init_def Let_def)
  have d: "str_nat 3 = ''3''" "str_nat 4 = ''4''" by (simp_all add: digit_def)
  have l: "example_str_list [''x@example.com'', ''y@example.com''] =
             ''['x@example.com', 'y@example.com']''"
    by (simp add: example_str_list_def)
  from oserror_backoff [OF n b e o, of example_str_list]
  obtain pre srv where
    "snd (send always_refused example_str_list (projr example_mail) default_retries) =
       pre @
       [Print ''Failed sending to <['x@example.com', 'y@example.com']> 3 times: [Errno 111] Connection refused (waiting 4s)'',
        Sleep 4] @
       (finally_events srv @
        snd (send_loop always_refused example_str_list (projr example_mail)
               (to (projr example_mail) @ bcc (projr example_mail)) default_retries False
               (Suc 2) srv)) \<and>
     attempts pre = 3"
    by (auto simp add: t d l simp del: str_nat.simps)
  then show ?thesis using n o by blast
qed

text \<open>
  Claim C4. Let the attempt with \<^verbatim>\<open>tries = i\<close> be made and fail with an authentication
  failure. Then, after the calls of that attempt, \<^verbatim>\<open>send\<close> prints "Failed sending:
  Authentication Error" and sleeps \<open>i\<close> seconds (not \<open>i\<^sup>2\<close>), closes the connection
  and goes on with the loop at \<^verbatim>\<open>tries = i + 1\<close> with \<^verbatim>\<open>success\<close> still false: when
  the budget allows it another attempt is made, and when the budget is used up \<^verbatim>\<open>send\<close>
  returns \<^verbatim>\<open>False\<close>.
\<close>

theorem auth_failure_backoff:
  assumes "to m @ bcc m \<noteq> []" and "int i < retries" and "\<forall>j<i. transient (env j)"
    and "env i = Raises s SMTPAuthenticationError"
  shows "(\<exists>pre srv.
            send env str_list m retries =
              (fst (send_loop env str_list m (to m @ bcc m) retries False (Suc i) srv),
               pre @ [Print ''Failed sending: Authentication Error'', Sleep i] @
               finally_events srv @
               snd (send_loop env str_list m (to m @ bcc m) retries False (Suc i) srv)) \<and>
            attempts pre = Suc i) \<and>
         (int (Suc i) < retries \<longrightarrow> Suc (Suc i) \<le> attempts (snd (send env str_list m retries))) \<and>
         (int (Suc i) = retries \<longrightarrow>
            fst (send env str_list m retries) = Inr False \<and>
            attempts (snd (send env str_list m retries)) = Suc i)"
proof -
  let ?ta = "to m @ bcc m"
  have tr: "transient (env i)" using assms(4) by simp
  obtain pre srv where
    p: "send env str_list m retries =
          (fst (send_loop env str_list m ?ta retries False (Suc i) (bound_after (env i) i srv)),
           pre @ attempt_events str_list m ?ta (env i) i srv @
           snd (send_loop env str_list m ?ta retries False (Suc i) (bound_after (env i) i srv)))"
    and a: "attempts pre = i"
    using nth_attempt [OF assms(1-3) tr, of str_list] by blast
  let ?pre = "pre @ body_events m ?ta (env i)"
  let ?srv = "bound_after (env i) i srv"
  let ?rest = "send_loop env str_list m ?ta retries False (Suc i) ?srv"
  have q: "send env str_list m retries =
          (fst ?rest,
           ?pre @ [Print ''Failed sending: Authentication Error'', Sleep i] @
           finally_events ?srv @ snd ?rest)"
    and k: "attempts ?pre = Suc i"
    using a by (simp_all add: p attempt_events_def assms(4) attempts_append attempts_body)
  then have first: "\<exists>pre srv.
            send env str_list m retries =
              (fst (send_loop env str_list m (to m @ bcc m) retries False (Suc i) srv),
               pre @ [Print ''Failed sending: Authentication Error'', Sleep i] @
               finally_events srv @
               snd (send_loop env str_list m (to m @ bcc m) retries False (Suc i) srv)) \<and>
            attempts pre = Suc i"
    by blast
  have total: "attempts (snd (send env str_list m retries)) = Suc i + attempts (snd ?rest)"
    using a by (simp add: q attempts_append attempts_body attempts_finally attempts_Cons)
  have second: "int (Suc i) < retries \<longrightarrow>
                  Suc (Suc i) \<le> attempts (snd (send env str_list m retries))"
    using attempts_pos [of "Suc i" retries env str_list m ?ta ?srv] total by auto
  have third: "int (Suc i) = retries \<longrightarrow>
            fst (send env str_list m retries) = Inr False \<and>
            attempts (snd (send env str_list m retries)) = Suc i"
    using total by (auto simp add: q send_loop_budget attempts_def [of "[]"])
  from first second third show ?thesis by blast
qed

theorem auth_failure_backoff_witness:
  "to (projr example_mail) @ bcc (projr example_mail) \<noteq> [] \<and>
   always_auth_failure 1 = Raises AtLogin SMTPAuthenticationError \<and>
   (\<exists>pre post.
      snd (send always_auth_failure example_str_list (projr example_mail) default_retries) =
        pre @ [Print ''Failed sending: Authentication Error'', Sleep 1] @ post \<and>
      attempts pre = 2) \<and>
   3 \<le> attempts (snd (send always_auth_failure example_str_list (projr example_mail)
                        default_retries))"
proof -
  have n: "to (projr example_mail) @ bcc (projr example_mail) \<noteq> []"
    by (simp add: example_mail_recipients)
  have b: "int 1 < default_retries" by (simp add: default_retries_def)
  have e: "\<forall>j<1. transient (always_auth_failure j)" by (simp add: always_auth_failure_def)
  have o: "always_auth_failure 1 = Raises AtLogin SMTPAuthenticationError"
    by (simp add: always_auth_failure_def)
  have c: "int (Suc 1) < default_retries" by (simp add: default_retries_def)
  note w = auth_failure_backoff [OF n b e o, of example_str_list]
  from w obtain pre srv where
    "send always_auth_failure example_str_list (projr example_mail) default_retries =
       (fst (send_loop always_auth_failure example_str_list (projr example_mail)
               (to (projr example_mail) @ bcc (projr example_mail)) default_retries False
               (Suc 1) srv),
        pre @ [Print ''Failed sending: Authentication Error'', Sleep 1] @
        finally_events srv @
        snd (send_loop always_auth_failure example_str_list (projr example_mail)
               (to (projr example_mail) @ bcc (projr example_mail)) default_retries False
               (Suc 1) srv))"
    and "attempts pre = Suc 1"
    by blast
  then have "\<exists>pre post.
      snd (send always_auth_failure example_str_list (projr example_mail) default_retries) =
        pre @ [Print ''Failed sending: Authentication Error'', Sleep 1] @ post \<and>
      attempts pre = 2"
    by (metis snd_conv Suc_1)
  moreover have "3 \<le> attempts (snd (send always_auth_failure example_str_list
                   (projr example_mail) default_retries))"
    using w c by simp
  ultimately show ?thesis using n o by blast
qed


text \<open>
  Claim C6, as amended. No authentication failure and no other \<^verbatim>\<open>OSError\<close> ever leaves
  \<^verbatim>\<open>send\<close>, whatever the server does: they are caught, and each prints its message.
  When there is a recipient and every attempt within the budget fails in one of these two
  ways, each of these attempts is made and prints, and \<^verbatim>\<open>send\<close> returns \<^verbatim>\<open>False\<close>.
  An exception of any other kind is not caught: when the attempt with \<^verbatim>\<open>tries = i\<close> is
  made and raises one, it leaves \<^verbatim>\<open>send\<close>. When no attempt within the budget raises
  one, \<^verbatim>\<open>send\<close> returns a boolean.
\<close>

theorem send_swallows_transient:
  "fst (send env str_list m retries) \<noteq> Inl SMTPAuthenticationError \<and>
   (\<forall>err. fst (send env str_list m retries) \<noteq> Inl (OSError err)) \<and>
   ((\<forall>i s x. int i < retries \<longrightarrow> env i \<noteq> Raises s (OtherException x)) \<longrightarrow>
      (\<exists>b. fst (send env str_list m retries) = Inr b)) \<and>
   (to m @ bcc m \<noteq> [] \<and> (\<forall>i. int i < retries \<longrightarrow> transient (env i)) \<longrightarrow>
      fst (send env str_list m retries) = Inr False \<and>
      attempts (snd (send env str_list m retries)) = nat retries \<and>
      prints (snd (send env str_list m retries)) = nat retries) \<and>
   (to m @ bcc m \<noteq> [] \<and> int i < retries \<and> (\<forall>j<i. transient (env j)) \<and>
    env i = Raises s (OtherException x) \<longrightarrow>
      fst (send env str_list m retries) = Inl (OtherException x))"
proof -
  have a: "fst (send env str_list m retries) \<noteq> Inl SMTPAuthenticationError"
    using send_result_Inl [of env str_list m retries SMTPAuthenticationError] by auto
  have b: "\<forall>err. fst (send env str_list m retries) \<noteq> Inl (OSError err)"
    using send_result_Inl [of env str_list m retries "OSError _"] by auto
  have c: "(\<forall>i s x. int i < retries \<longrightarrow> env i \<noteq> Raises s (OtherException x)) \<longrightarrow>
      (\<exists>b. fst (send env str_list m retries) = Inr b)"
  proof
    assume h: "\<forall>i s x. int i < retries \<longrightarrow> env i \<noteq> Raises s (OtherException x)"
    show "\<exists>b. fst (send env str_list m retries) = Inr b"
    proof (cases "fst (send env str_list m retries)")
      case (Inl e)
      from send_result_Inl [OF this] h show ?thesis by blast
    next
      case (Inr b)
      then show ?thesis by blast
    qed
  qed
  have d: "to m @ bcc m \<noteq> [] \<and> (\<forall>i. int i < retries \<longrightarrow> transient (env i)) \<longrightarrow>
      fst (send env str_list m retries) = Inr False \<and>
      attempts (snd (send env str_list m retries)) = nat retries \<and>
      prints (snd (send env str_list m retries)) = nat retries"
    using all_transient_run [of 0 retries env str_list m "to m @ bcc m" None]
      all_transient_prints [of 0 retries env str_list m "to m @ bcc m" None]
    by (simp add: send_def)
  have e: "to m @ bcc m \<noteq> [] \<and> int i < retries \<and> (\<forall>j<i. transient (env j)) \<and>
    env i = Raises s (OtherException x) \<longrightarrow>
      fst (send env str_list m retries) = Inl (OtherException x)"
    using uncaught_attempt [of m i retries env s x str_list] by blast
  from a b c d e show ?thesis by blast
qed

theorem send_swallows_transient_witness:
  "to (projr example_mail) @ bcc (projr example_mail) \<noteq> [] \<and>
   transient (always_refused 0) \<and> transient (always_refused 1) \<and> transient (always_refused 2) \<and>
   fst (send always_refused example_str_list (projr example_mail) default_retries) = Inr False \<and>
   attempts (snd (send always_refused example_str_list (projr example_mail) default_retries)) = 3 \<and>
   prints (snd (send always_refused example_str_list (projr example_mail) default_retries)) = 3 \<and>
   fst (send refused_then_ok example_str_list (projr example_mail) default_retries) = Inr True \<and>
   always_uncaught 0 = Raises AtAsString (OtherException ''ValueError'') \<and>
   fst (send always_uncaught example_str_list (projr example_mail) default_retries) =
     Inl (OtherException ''ValueError'')"
proof -
  have n: "to (projr example_mail) @ bcc (projr example_mail) \<noteq> []"
    by (simp add: example_mail_recipients)
  have t: "\<forall>i. transient (always_refused i)" by (simp add: always_refused_def)
  have o: "\<forall>i s x. refused_then_ok i \<noteq> Raises s (OtherException x)"
    by (simp add: refused_then_ok_def)
  have u: "always_uncaught 0 = Raises AtAsString (OtherException ''ValueError'')"
    by (simp add: always_uncaught_def)
  have k: "fst (send refused_then_ok example_str_list (projr example_mail) default_retries)
             \<noteq> Inr False"
    using n
    by (simp add: send_def default_retries_def send_loop_Failed send_loop_Completed
        refused_then_ok_def)
  show ?thesis
    using n t o k u
      send_swallows_transient [of always_refused example_str_list "projr example_mail"
        default_retries]
      send_swallows_transient [of refused_then_ok example_str_list "projr example_mail"
        default_retries]
      send_swallows_transient [of always_uncaught example_str_list "projr example_mail"
        default_retries 0 AtAsString "''ValueError''"]
    by (auto simp add: default_retries_def)
qed

text \<open>
  Claim C6 as it is written fails: an exception that is no \<^verbatim>\<open>OSError\<close>, raised in the
  first attempt, leaves \<^verbatim>\<open>send\<close>, which then returns neither \<^verbatim>\<open>True\<close> nor
  \<^verbatim>\<open>False\<close>.
\<close>

theorem uncaught_exception_counterexample:
  "fst (send always_uncaught example_str_list (projr example_mail) default_retries) =
     Inl (OtherException ''ValueError'') \<and>
   fst (send always_uncaught example_str_list (projr example_mail) default_retries) \<noteq> Inr True \<and>
   fst (send always_uncaught example_str_list (projr example_mail) default_retries) \<noteq> Inr False"
proof -
  have n: "to (projr example_mail) @ bcc (projr example_mail) \<noteq> []"
    by (simp add: example_mail_recipients)
  have "fst (send always_uncaught example_str_list (projr example_mail) default_retries) =
     Inl (OtherException ''ValueError'')"
    using n
    by (simp add: send_def default_retries_def always_uncaught_def
        send_loop_Uncaught [where s=AtAsString and x="''ValueError''"])
  then show ?thesis by simp
qed

text \<open>
  Claim C9, as amended. With \<^verbatim>\<open>retries = 3\<close>, a recipient, and an authentication
  failure in each of the three attempts, \<^verbatim>\<open>send\<close> returns \<^verbatim>\<open>False\<close> after exactly
  3 attempts, and it sleeps three times, 0, 1 and 2 seconds, once after each failed
  attempt: the sleep of 2 seconds comes after the calls of the third attempt, and only
  the close of the connection follows it.
\<close>

theorem three_auth_failures:
  assumes "to m @ bcc m \<noteq> []"
    and "\<forall>i<3. \<exists>s. env i = Raises s SMTPAuthenticationError"
  shows "fst (send env str_list m 3) = Inr False \<and>
         attempts (snd (send env str_list m 3)) = 3 \<and>
         sleeps (snd (send env str_list m 3)) = [0, 1, 2] \<and>
         (\<exists>pre srv. snd (send env str_list m 3) = pre @ [Sleep 2] @ finally_events srv \<and>
            attempts pre = 3)"
proof -
  from assms(2) obtain s0 s1 s2 where
    e: "env 0 = Raises s0 SMTPAuthenticationError"
       "env (Suc 0) = Raises s1 SMTPAuthenticationError"
       "env (Suc (Suc 0)) = Raises s2 SMTPAuthenticationError"
    by (metis One_nat_def Suc_1 lessI less_SucI numeral_3_eq_3 zero_less_Suc)
  note r = three_auth_run [OF assms(1) e, of str_list]
  have a: "fst (send env str_list m 3) = Inr False" by (simp add: r)
  have b: "attempts (snd (send env str_list m 3)) = 3"
    by (simp add: r attempts_append attempts_attempt)
  have c: "sleeps (snd (send env str_list m 3)) = [0, 1, 2]"
    by (simp add: r sleeps_append sleeps_auth_attempt)
  let ?srv1 = "bound_after (Raises s1 SMTPAuthenticationError) (Suc 0)
                 (bound_after (Raises s0 SMTPAuthenticationError) 0 None)"
  let ?pre = "attempt_events str_list m (to m @ bcc m) (Raises s0 SMTPAuthenticationError) 0 None @
            attempt_events str_list m (to m @ bcc m) (Raises s1 SMTPAuthenticationError) (Suc 0)
              (bound_after (Raises s0 SMTPAuthenticationError) 0 None) @
            body_events m (to m @ bcc m) (Raises s2 SMTPAuthenticationError) @
            [Print ''Failed sending: Authentication Error'']"
  have "snd (send env str_list m 3) = ?pre @ [Sleep 2] @
          finally_events (bound_after (Raises s2 SMTPAuthenticationError) (Suc (Suc 0)) ?srv1) \<and>
        attempts ?pre = 3"
    by (simp add: r attempts_append attempts_attempt attempts_body attempts_Cons
        attempt_events_def [of _ _ _ "Raises s2 SMTPAuthenticationError"] numeral_2_eq_2)
       (simp add: attempts_def)
  then have d: "\<exists>pre srv. snd (send env str_list m 3) = pre @ [Sleep 2] @ finally_events srv \<and>
            attempts pre = 3"
    by blast
  from a b c d show ?thesis by blast
qed

theorem three_auth_failures_witness:
  "to (projr example_mail) @ bcc (projr example_mail) \<noteq> [] \<and>
   always_auth_failure 0 = Raises AtLogin SMTPAuthenticationError \<and>
   always_auth_failure 1 = Raises AtLogin SMTPAuthenticationError \<and>
   always_auth_failure 2 = Raises AtLogin SMTPAuthenticationError \<and>
   fst (send always_auth_failure example_str_list (projr example_mail) 3) = Inr False \<and>
   attempts (snd (send always_auth_failure example_str_list (projr example_mail) 3)) = 3 \<and>
   sleeps (snd (send always_auth_failure example_str_list (projr example_mail) 3)) = [0, 1, 2]"
proof -
  have n: "to (projr example_mail) @ bcc (projr example_mail) \<noteq> []"
    by (simp add: example_mail_recipients)
  have e: "\<forall>i<3. \<exists>s. always_auth_failure i = Raises s SMTPAuthenticationError"
    by (simp add: always_auth_failure_def)
  have o: "always_auth_failure 0 = Raises AtLogin SMTPAuthenticationError"
    "always_auth_failure 1 = Raises AtLogin SMTPAuthenticationError"
    "always_auth_failure 2 = Raises AtLogin SMTPAuthenticationError"
    by (simp_all add: always_auth_failure_def)
  show ?thesis
    using n o three_auth_failures [OF n e, of example_str_list]
    by simp
qed

text \<open>
  Claim C9 as it is written fails: the waits are not 0 and 1 second only, a wait of 2
  seconds follows the third attempt.
\<close>

theorem third_wait_counterexample:
  "sleeps (snd (send always_auth_failure example_str_list (projr example_mail) 3)) = [0, 1, 2] \<and>
   sleeps (snd (send always_auth_failure example_str_list (projr example_mail) 3)) \<noteq> [0, 1]"
proof -
  have n: "to (projr example_mail) @ bcc (projr example_mail) \<noteq> []"
    by (simp add: example_mail_recipients)
  have "sleeps (snd (send always_auth_failure example_str_list (projr example_mail) 3)) = [0, 1, 2]"
    using three_auth_run [OF n, of always_auth_failure AtLogin AtLogin AtLogin example_str_list]
    by (simp add: always_auth_failure_def sleeps_append sleeps_auth_attempt)
  then show ?thesis by simp
qed


end
